theory Spec2Isabelle
  imports Main
begin

section \<open>Graph store (Node, Edge, Metrics, CPG)\<close>

text \<open>
  Go's \<open>map[string]any\<close> property bags are association lists from keys to primitive
  values; the nil map is the empty list.
\<close>

datatype pval = PInt int | PBool bool | PStr string

type_synonym props = "(string \<times> pval) list"

record Node =
  ID :: string
  Kind :: string
  Name :: string
  File :: string
  Line :: int
  Col :: int
  EndLine :: int
  Package :: string
  ParentFunction :: string
  TypeInfo :: string
  Properties :: props

record Edge =
  Source :: string
  Target :: string
  EKind :: string
  EProperties :: props

record Metrics =
  FunctionID :: string
  CyclomaticComplexity :: int
  FanIn :: int
  FanOut :: int
  LOC :: int
  NumParams :: int

type_synonym edgeKey = "string \<times> string \<times> string"

record CPG =
  Nodes :: "Node list"
  Edges :: "Edge list"
  nodeSeen :: "string set"
  edgeSeen :: "edgeKey set"
  Sources :: "string \<rightharpoonup> string"
  MetricsMap :: "string \<rightharpoonup> Metrics"

definition NewCPG :: CPG where
  "NewCPG = \<lparr>Nodes = [], Edges = [], nodeSeen = {}, edgeSeen = {},
             Sources = Map.empty, MetricsMap = Map.empty\<rparr>"

definition AddNode :: "Node \<Rightarrow> CPG \<Rightarrow> CPG" where
  "AddNode n g =
     (if ID n \<in> nodeSeen g then g
      else g\<lparr>nodeSeen := insert (ID n) (nodeSeen g), Nodes := Nodes g @ [n]\<rparr>)"

definition key_of :: "Edge \<Rightarrow> edgeKey" where
  "key_of e = (Source e, Target e, EKind e)"

definition AddEdge :: "Edge \<Rightarrow> CPG \<Rightarrow> CPG" where
  "AddEdge e g =
     (if key_of e \<in> edgeSeen g then g
      else g\<lparr>edgeSeen := insert (key_of e) (edgeSeen g), Edges := Edges g @ [e]\<rparr>)"

text \<open>
  The consistency of a store: the seen-sets are the ids and triples of the stored nodes and
  edges, and no id or triple is stored twice. \<open>NewCPG\<close> has it; \<open>AddNode\<close>, \<open>AddEdge\<close>,
  writes to \<open>Sources\<close> and \<open>Metrics\<close>, and in-place edits of a stored node's properties
  keep it.
\<close>

definition store_inv :: "CPG \<Rightarrow> bool" where
  "store_inv g \<longleftrightarrow>
     nodeSeen g = ID ` set (Nodes g) \<and> distinct (map ID (Nodes g)) \<and>
     edgeSeen g = key_of ` set (Edges g) \<and> distinct (map key_of (Edges g))"

definition nodes_with :: "string \<Rightarrow> CPG \<Rightarrow> Node list" where
  "nodes_with i g = filter (\<lambda>n. ID n = i) (Nodes g)"

text \<open>A Go composite literal \<open>Node{ID: i, Kind: k, Name: n}\<close>: the other fields are zero.\<close>

definition mk_node :: "string \<Rightarrow> string \<Rightarrow> string \<Rightarrow> Node" where
  "mk_node i k n = \<lparr>ID = i, Kind = k, Name = n, File = [], Line = 0, Col = 0, EndLine = 0,
     Package = [], ParentFunction = [], TypeInfo = [], Properties = []\<rparr>"

definition edges_with :: "edgeKey \<Rightarrow> CPG \<Rightarrow> Edge list" where
  "edges_with k g = filter (\<lambda>d. key_of d = k) (Edges g)"

definition mk_edge :: "string \<Rightarrow> string \<Rightarrow> string \<Rightarrow> props \<Rightarrow> Edge" where
  "mk_edge s t k p = \<lparr>Source = s, Target = t, EKind = k, EProperties = p\<rparr>"


section \<open>Identifiers and position indices\<close>

text \<open>Go's \<open>%d\<close> verb: the decimal digits of an integer, with a minus sign when negative.\<close>

fun digits :: "nat \<Rightarrow> string" where
  "digits n = (if n < 10 then [char_of (48 + n)]
               else digits (n div 10) @ [char_of (48 + n mod 10)])"

declare digits.simps [simp del]

definition itoa :: "int \<Rightarrow> string" where
  "itoa i = (if i < 0 then CHR ''-'' # digits (nat (- i)) else digits (nat i))"


definition BlockID :: "string \<Rightarrow> int \<Rightarrow> string" where
  "BlockID funcID blockIndex = funcID @ ''::bb'' @ itoa blockIndex"

definition pos_key :: "string \<Rightarrow> int \<Rightarrow> int \<Rightarrow> string" where
  "pos_key file line col = file @ '':'' @ itoa line @ '':'' @ itoa col"

text \<open>A lookup of a missing key in a Go map gives the zero value, the empty string.\<close>

definition map_get :: "('k \<rightharpoonup> string) \<Rightarrow> 'k \<Rightarrow> string" where
  "map_get m k = (case m k of None \<Rightarrow> [] | Some v \<Rightarrow> v)"

record PosLookup =
  pl_m :: "string \<rightharpoonup> string"

record FuncLookup =
  fl_m :: "string \<rightharpoonup> string"

record 'o DefLookup =
  dl_m :: "'o \<rightharpoonup> string"

definition NewPosLookup :: PosLookup where
  "NewPosLookup = \<lparr>pl_m = Map.empty\<rparr>"

definition NewFuncLookup :: FuncLookup where
  "NewFuncLookup = \<lparr>fl_m = Map.empty\<rparr>"

definition NewDefLookup :: "'o DefLookup" where
  "NewDefLookup = \<lparr>dl_m = Map.empty\<rparr>"

definition PosLookup_Set :: "string \<Rightarrow> int \<Rightarrow> int \<Rightarrow> string \<Rightarrow> PosLookup \<Rightarrow> PosLookup" where
  "PosLookup_Set file line col nid pl =
     (let key = pos_key file line col in
      if pl_m pl key = None then pl\<lparr>pl_m := (pl_m pl)(key \<mapsto> nid)\<rparr> else pl)"

definition PosLookup_Get :: "PosLookup \<Rightarrow> string \<Rightarrow> int \<Rightarrow> int \<Rightarrow> string" where
  "PosLookup_Get pl file line col = map_get (pl_m pl) (pos_key file line col)"

text \<open>A \<open>types.Object\<close> is an optional reference; \<open>None\<close> is the nil object.\<close>

definition DefLookup_Set :: "'o option \<Rightarrow> string \<Rightarrow> 'o DefLookup \<Rightarrow> 'o DefLookup" where
  "DefLookup_Set obj nid dl =
     (case obj of None \<Rightarrow> dl | Some ob \<Rightarrow> dl\<lparr>dl_m := (dl_m dl)(ob \<mapsto> nid)\<rparr>)"

definition DefLookup_Get :: "'o DefLookup \<Rightarrow> 'o option \<Rightarrow> string" where
  "DefLookup_Get dl obj = (case obj of None \<Rightarrow> [] | Some ob \<Rightarrow> map_get (dl_m dl) ob)"

definition FuncLookup_Set :: "string \<Rightarrow> int \<Rightarrow> int \<Rightarrow> string \<Rightarrow> FuncLookup \<Rightarrow> FuncLookup" where
  "FuncLookup_Set file line col nid fl = fl\<lparr>fl_m := (fl_m fl)(pos_key file line col \<mapsto> nid)\<rparr>"

definition FuncLookup_Get :: "FuncLookup \<Rightarrow> string \<Rightarrow> int \<Rightarrow> int \<Rightarrow> string" where
  "FuncLookup_Get fl file line col = map_get (fl_m fl) (pos_key file line col)"

section \<open>Defer ordering in the AST walker\<close>









section \<open>Control dependence extraction\<close>



















section \<open>Module set and path resolution\<close>

record ModuleInfo =
  ModPath :: string
  Dir :: string
  Prefix :: string

type_synonym ModuleSet = "ModuleInfo list"

definition NewModuleSet :: "ModuleInfo \<Rightarrow> ModuleInfo list \<Rightarrow> ModuleSet" where
  "NewModuleSet primary extras = primary # extras"

text \<open>\<open>strings.HasPrefix\<close>.\<close>

definition HasPrefix :: "string \<Rightarrow> string \<Rightarrow> bool" where
  "HasPrefix s pre = (take (length pre) s = pre)"

text \<open>\<open>IsKnownPkg\<close>: the package path is a module path or lies below one.\<close>

definition IsKnownPkg :: "ModuleSet \<Rightarrow> string \<Rightarrow> bool" where
  "IsKnownPkg ms pkgPath =
     list_ex (\<lambda>m. pkgPath = ModPath m \<or> HasPrefix pkgPath (ModPath m @ ''/'')) ms"

text \<open>
  \<open>filepath.Clean\<close> and \<open>filepath.Rel\<close> of Go's standard library, for slash-separated
  paths without volume names, written over path elements. \<open>Clean\<close> drops empty and
  \<open>.\<close> elements and resolves \<open>..\<close> against the element before it (at the root it is
  dropped, in a relative path a leading \<open>..\<close> stays). \<open>Rel\<close> cleans both paths, gives
  \<open>.\<close> when they are equal, fails when only one of them is rooted, removes their
  common leading elements, and answers one \<open>..\<close> for every element left of the base,
  followed by the elements left of the target. \<open>None\<close> is the error result. Every
  \<open>Dir\<close> is absolute (main.go:41,71 pass it through \<open>filepath.Abs\<close>), and so are the
  file names the loader and the file set give.
\<close>

fun split_sep :: "string \<Rightarrow> string list" where
  "split_sep [] = [[]]"
| "split_sep (c # cs) =
     (if c = CHR ''/'' then [] # split_sep cs
      else (case split_sep cs of [] \<Rightarrow> [[c]] | x # xs \<Rightarrow> (c # x) # xs))"

fun join_sep :: "string list \<Rightarrow> string" where
  "join_sep [] = []"
| "join_sep [x] = x"
| "join_sep (x # y # ys) = x @ CHR ''/'' # join_sep (y # ys)"

fun clean_elems :: "bool \<Rightarrow> string list \<Rightarrow> string list \<Rightarrow> string list" where
  "clean_elems rooted out [] = out"
| "clean_elems rooted out (c # cs) =
     (if c = [] \<or> c = ''.'' then clean_elems rooted out cs
      else if c = ''..'' then
        (if out \<noteq> [] \<and> last out \<noteq> ''..'' then clean_elems rooted (butlast out) cs
         else if rooted then clean_elems rooted out cs
         else clean_elems rooted (out @ [''..'']) cs)
      else clean_elems rooted (out @ [c]) cs)"

definition filepath_Clean :: "string \<Rightarrow> string" where
  "filepath_Clean path =
     (if path = [] then ''.''
      else let rooted = (hd path = CHR ''/'');
               elems = clean_elems rooted [] (split_sep path)
           in if rooted then CHR ''/'' # join_sep elems
              else if elems = [] then ''.'' else join_sep elems)"

definition path_elems :: "string \<Rightarrow> string list" where
  "path_elems p =
     (if p = [] then []
      else if hd p = CHR ''/'' then (if tl p = [] then [] else split_sep (tl p))
      else split_sep p)"

fun strip_common :: "string list \<Rightarrow> string list \<Rightarrow> string list \<times> string list" where
  "strip_common (b # bs) (t # ts) = (if b = t then strip_common bs ts else (b # bs, t # ts))"
| "strip_common bs ts = (bs, ts)"

definition filepath_Rel :: "string \<Rightarrow> string \<Rightarrow> string option" where
  "filepath_Rel basepath targpath =
     (let base = filepath_Clean basepath; targ = filepath_Clean targpath in
      if targ = base then Some ''.''
      else
        let base' = (if base = ''.'' then [] else base);
            baseSlashed = (base' \<noteq> [] \<and> hd base' = CHR ''/'');
            targSlashed = (targ \<noteq> [] \<and> hd targ = CHR ''/'')
        in if baseSlashed \<noteq> targSlashed then None
           else case strip_common (path_elems base') (path_elems targ) of
             (br, tr) \<Rightarrow>
               if br \<noteq> [] \<and> tr \<noteq> [] \<and> hd br = ''..'' then None
               else if br \<noteq> [] then Some (join_sep (map (\<lambda>_. ''..'') br @ tr))
               else Some (join_sep tr))"

text \<open>
  \<open>RelFile\<close>: the loop keeps the relative path, prefix and \<open>Dir\<close> length of the best
  module so far; a module is skipped when \<open>Rel\<close> fails or its result starts with \<open>..\<close>.
\<close>

record relfile_state =
  bestRel :: string
  bestPrefix :: string
  bestDirLen :: int

definition RelFile_step :: "string \<Rightarrow> ModuleInfo \<Rightarrow> relfile_state \<Rightarrow> relfile_state" where
  "RelFile_step absPath m st =
     (case filepath_Rel (Dir m) absPath of
        None \<Rightarrow> st
      | Some rel \<Rightarrow>
          if HasPrefix rel ''..'' then st
          else if int (length (Dir m)) > bestDirLen st
               then \<lparr>bestRel = rel, bestPrefix = Prefix m, bestDirLen = int (length (Dir m))\<rparr>
               else st)"

definition RelFile :: "ModuleSet \<Rightarrow> string \<Rightarrow> string" where
  "RelFile ms absPath =
     (let st = fold (RelFile_step absPath) ms \<lparr>bestRel = [], bestPrefix = [], bestDirLen = - 1\<rparr>
      in if bestDirLen st < 0 then []
         else if bestPrefix st = [] then bestRel st
         else bestPrefix st @ ''/'' @ bestRel st)"


text \<open>A primary module at \<open>/p\<close> and an extra module nested in it at \<open>/p/s\<close>, with prefix \<open>x\<close>.\<close>

definition nested_modules :: ModuleSet where
  "nested_modules =
     NewModuleSet \<lparr>ModPath = ''example.com/p'', Dir = ''/p'', Prefix = []\<rparr>
       [\<lparr>ModPath = ''example.com/p/s'', Dir = ''/p/s'', Prefix = ''x''\<rparr>]"

section \<open>Call graph builder\<close>

text \<open>
  \<open>RelPkg\<close>: the loop keeps the result, the \<open>ModPath\<close> length and the matched flag of the
  best module so far.
\<close>

record relpkg_state =
  bestResult :: string
  bestModLen :: int
  matched :: bool

definition RelPkg_step :: "string \<Rightarrow> ModuleInfo \<Rightarrow> relpkg_state \<Rightarrow> relpkg_state" where
  "RelPkg_step fullPath m st =
     (if fullPath = ModPath m \<and> int (length (ModPath m)) > bestModLen st then
        \<lparr>bestResult = (if Prefix m = [] then ''main'' else Prefix m),
         bestModLen = int (length (ModPath m)), matched = True\<rparr>
      else if HasPrefix fullPath (ModPath m @ ''/'') \<and> int (length (ModPath m)) > bestModLen st then
        (let rel = drop (length (ModPath m @ ''/'')) fullPath in
         \<lparr>bestResult = (if Prefix m = [] then rel else Prefix m @ ''/'' @ rel),
          bestModLen = int (length (ModPath m)), matched = True\<rparr>)
      else st)"

definition RelPkg :: "ModuleSet \<Rightarrow> string \<Rightarrow> string" where
  "RelPkg ms fullPath =
     (let st = fold (RelPkg_step fullPath) ms \<lparr>bestResult = [], bestModLen = - 1, matched = False\<rparr>
      in if matched st then bestResult st else fullPath)"

text \<open>
  What the builder reads of the SSA program. A \<open>token.Pos\<close> is an optional
  \<open>Position\<close> (file name, line, column as the file set gives them), \<open>None\<close> when not
  valid. Of a function: its package path (\<open>None\<close> when \<open>Pkg\<close> is nil), its position,
  \<open>String()\<close>, \<open>Name()\<close>, the text of its signature, the positions of its parameters
  and the number of its results. Of a call site: its position, \<open>IsInvoke()\<close> and the
  positions of the arguments. A VTA edge has a caller, a callee and an optional site.
\<close>

record Position =
  Filename :: string
  PLine :: int
  PColumn :: int

record ssa_func =
  fn_Pkg :: "string option"
  fn_Pos :: "Position option"
  fn_String :: string
  fn_Name :: string
  fn_Signature :: string
  fn_Params :: "Position option list"
  fn_Results :: nat

record call_site =
  site_Pos :: "Position option"
  site_IsInvoke :: bool
  site_Args :: "Position option list"

record vta_edge =
  Caller :: ssa_func
  Callee :: ssa_func
  Site :: "call_site option"

text \<open>The state of the edge visit: the store and the \<open>stubs\<close> map (the counters only feed the log).\<close>

record cg_state =
  cg_cpg :: CPG
  cg_stubs :: "string set"

definition ssaFuncNodeID :: "ModuleSet \<Rightarrow> FuncLookup \<Rightarrow> ssa_func \<Rightarrow> string" where
  "ssaFuncNodeID ms funcLookup fn =
     (case fn_Pos fn of
        None \<Rightarrow> []
      | Some p \<Rightarrow>
          let relFile = RelFile ms (Filename p) in
          if relFile = [] then [] else FuncLookup_Get funcLookup relFile (PLine p) (PColumn p))"

definition pkg_known :: "ModuleSet \<Rightarrow> ssa_func \<Rightarrow> bool" where
  "pkg_known ms fn = (case fn_Pkg fn of None \<Rightarrow> False | Some p \<Rightarrow> IsKnownPkg ms p)"

definition stub_node :: "ModuleSet \<Rightarrow> ssa_func \<Rightarrow> Node" where
  "stub_node ms callee =
     \<lparr>ID = ''ext::'' @ fn_String callee, Kind = ''function'', Name = fn_Name callee,
      File = [], Line = 0, Col = 0, EndLine = 0,
      Package = RelPkg ms (case fn_Pkg callee of None \<Rightarrow> [] | Some p \<Rightarrow> p),
      ParentFunction = [], TypeInfo = fn_Signature callee,
      Properties = [(''external'', PBool True), (''full_name'', PStr (fn_String callee))]\<rparr>"

text \<open>
  The stub block of the visit (callgraph.go:49-80). \<open>None\<close> is \<open>return nil\<close>: the edge
  is skipped. Otherwise the callee id to use and the state, with the stub node added
  when it was not yet in \<open>stubs\<close>.
\<close>

definition resolve_callee ::
  "ModuleSet \<Rightarrow> ssa_func \<Rightarrow> string \<Rightarrow> cg_state \<Rightarrow> (string \<times> cg_state) option" where
  "resolve_callee ms callee calleeID st =
     (if calleeID = [] \<and> fn_Pkg callee \<noteq> None then
        (if pkg_known ms callee then None
         else let stubID = ''ext::'' @ fn_String callee in
              if stubID \<notin> cg_stubs st
              then Some (stubID, \<lparr>cg_cpg = AddNode (stub_node ms callee) (cg_cpg st),
                                  cg_stubs = insert stubID (cg_stubs st)\<rparr>)
              else Some (stubID, st))
      else if calleeID = [] then None
      else Some (calleeID, st))"

text \<open>A position resolved to a node id: empty when the position is not valid, the file is outside every module, or the PositionIndex has no entry.\<close>

definition pos_node :: "ModuleSet \<Rightarrow> PosLookup \<Rightarrow> Position option \<Rightarrow> string" where
  "pos_node ms posLookup pos =
     (case pos of
        None \<Rightarrow> []
      | Some p \<Rightarrow>
          let relFile = RelFile ms (Filename p) in
          if relFile = [] then [] else PosLookup_Get posLookup relFile (PLine p) (PColumn p))"

definition param_in_step ::
  "ModuleSet \<Rightarrow> PosLookup \<Rightarrow> Position option list \<Rightarrow> Position option list \<Rightarrow> nat \<Rightarrow> nat \<Rightarrow> CPG \<Rightarrow> CPG" where
  "param_in_step ms posLookup args params offset i g =
     (let argID = pos_node ms posLookup (args ! i) in
      if argID = [] then g
      else let paramID = pos_node ms posLookup (params ! (i - offset)) in
           if paramID = [] then g
           else AddEdge \<lparr>Source = argID, Target = paramID, EKind = ''param_in'',
                         EProperties = [(''index'', PInt (int i - int offset))]\<rparr> g)"

text \<open>The rest of the visit: the \<open>call\<close>, \<open>call_site\<close>, \<open>param_in\<close>, \<open>param_out\<close> and \<open>call_to_return\<close> edges.\<close>

definition emit_call_edges ::
  "ModuleSet \<Rightarrow> PosLookup \<Rightarrow> vta_edge \<Rightarrow> string \<Rightarrow> string \<Rightarrow> CPG \<Rightarrow> CPG" where
  "emit_call_edges ms posLookup edge callerID calleeID g =
     (let props = (case Site edge of
                     None \<Rightarrow> []
                   | Some s \<Rightarrow> if site_IsInvoke s then [(''dynamic'', PBool True)] else []);
          g1 = AddEdge \<lparr>Source = callerID, Target = calleeID, EKind = ''call'',
                        EProperties = props\<rparr> g
      in case Site edge of
           None \<Rightarrow> g1
         | Some s \<Rightarrow>
             (case site_Pos s of
                None \<Rightarrow> g1
              | Some p \<Rightarrow>
                  let siteID = pos_node ms posLookup (Some p);
                      g2 = (if siteID \<noteq> []
                            then AddEdge \<lparr>Source = siteID, Target = calleeID, EKind = ''call_site'',
                                          EProperties = props\<rparr> g1
                            else g1);
                      args = site_Args s;
                      params = fn_Params (Callee edge);
                      offset = (if site_IsInvoke s then 1 else 0);
                      g3 = fold (param_in_step ms posLookup args params offset)
                             [offset ..< min (length args) (length params + offset)] g2;
                      g4 = (if siteID \<noteq> [] \<and> fn_Results (Callee edge) > 0
                            then AddEdge \<lparr>Source = calleeID, Target = siteID, EKind = ''param_out'',
                                          EProperties = [(''num_results'', PInt (int (fn_Results (Callee edge))))]\<rparr> g3
                            else g3)
                  in if siteID \<noteq> []
                     then AddEdge \<lparr>Source = callerID, Target = siteID, EKind = ''call_to_return'',
                                   EProperties = []\<rparr> g4
                     else g4))"

definition BuildCallGraph_edge ::
  "ModuleSet \<Rightarrow> PosLookup \<Rightarrow> FuncLookup \<Rightarrow> vta_edge \<Rightarrow> cg_state \<Rightarrow> cg_state" where
  "BuildCallGraph_edge ms posLookup funcLookup edge st =
     (if \<not> pkg_known ms (Caller edge) \<and> \<not> pkg_known ms (Callee edge) then st
      else let callerID = ssaFuncNodeID ms funcLookup (Caller edge);
               calleeID = ssaFuncNodeID ms funcLookup (Callee edge)
           in if callerID = [] then st
              else case resolve_callee ms (Callee edge) calleeID st of
                     None \<Rightarrow> st
                   | Some (calleeID', st') \<Rightarrow>
                       st'\<lparr>cg_cpg := emit_call_edges ms posLookup edge callerID calleeID' (cg_cpg st')\<rparr>)"

text \<open>\<open>BuildCallGraph\<close> visits the edges of the VTA graph in the order the library gives them.\<close>

definition BuildCallGraph ::
  "ModuleSet \<Rightarrow> PosLookup \<Rightarrow> FuncLookup \<Rightarrow> vta_edge list \<Rightarrow> CPG \<Rightarrow> CPG" where
  "BuildCallGraph ms posLookup funcLookup edges g =
     cg_cpg (fold (BuildCallGraph_edge ms posLookup funcLookup) edges \<lparr>cg_cpg = g, cg_stubs = {}\<rparr>)"

text \<open>
  A callee with a package outside every in-scope module that the FunctionIndex does not
  resolve; a callee of an in-scope module that the FunctionIndex does not resolve.
\<close>

definition outside_unresolved :: "ModuleSet \<Rightarrow> FuncLookup \<Rightarrow> ssa_func \<Rightarrow> bool" where
  "outside_unresolved ms funcLookup callee \<longleftrightarrow>
     fn_Pkg callee \<noteq> None \<and> \<not> pkg_known ms callee \<and> ssaFuncNodeID ms funcLookup callee = []"

definition known_unresolved :: "ModuleSet \<Rightarrow> FuncLookup \<Rightarrow> ssa_func \<Rightarrow> bool" where
  "known_unresolved ms funcLookup callee \<longleftrightarrow>
     pkg_known ms callee \<and> ssaFuncNodeID ms funcLookup callee = []"

text \<open>The \<open>call\<close> edge of a visit.\<close>

definition call_edge :: "vta_edge \<Rightarrow> string \<Rightarrow> string \<Rightarrow> Edge" where
  "call_edge e a b =
     \<lparr>Source = a, Target = b, EKind = ''call'',
      EProperties = (case Site e of None \<Rightarrow> []
                     | Some s \<Rightarrow> if site_IsInvoke s then [(''dynamic'', PBool True)] else [])\<rparr>"

text \<open>The visit keeps the store consistent and every id in \<open>stubs\<close> a stored node id.\<close>

definition cg_inv :: "cg_state \<Rightarrow> bool" where
  "cg_inv st \<longleftrightarrow> store_inv (cg_cpg st) \<and> cg_stubs st \<subseteq> nodeSeen (cg_cpg st)"

text \<open>
  An example: one module at \<open>/p\<close>; the function \<open>f\<close> of its root package, registered
  by the walker at its keyword and name positions; a callee \<open>G\<close> of the module's package
  \<open>gen\<close> whose file was skipped, so that the FunctionIndex has no entry for it; and
  the callee \<open>fmt.Println\<close> of the standard library.
\<close>

definition one_module :: ModuleSet where
  "one_module = NewModuleSet \<lparr>ModPath = ''example.com/p'', Dir = ''/p'', Prefix = []\<rparr> []"

definition example_funcs :: FuncLookup where
  "example_funcs =
     FuncLookup_Set ''a.go'' 3 6 ''main::f@a.go:3:1''
       (FuncLookup_Set ''a.go'' 3 1 ''main::f@a.go:3:1'' NewFuncLookup)"

definition fn_f :: ssa_func where
  "fn_f = \<lparr>fn_Pkg = Some ''example.com/p'',
           fn_Pos = Some \<lparr>Filename = ''/p/a.go'', PLine = 3, PColumn = 6\<rparr>,
           fn_String = ''example.com/p.f'', fn_Name = ''f'', fn_Signature = ''func()'',
           fn_Params = [], fn_Results = 0\<rparr>"

definition gen_G :: ssa_func where
  "gen_G = \<lparr>fn_Pkg = Some ''example.com/p/gen'',
            fn_Pos = Some \<lparr>Filename = ''/p/gen/x.pb.go'', PLine = 10, PColumn = 6\<rparr>,
            fn_String = ''example.com/p/gen.G'', fn_Name = ''G'', fn_Signature = ''func()'',
            fn_Params = [], fn_Results = 0\<rparr>"

definition fmt_Println :: ssa_func where
  "fmt_Println = \<lparr>fn_Pkg = Some ''fmt'',
                  fn_Pos = Some \<lparr>Filename = ''/usr/local/go/src/fmt/print.go'', PLine = 313, PColumn = 6\<rparr>,
                  fn_String = ''fmt.Println'', fn_Name = ''Println'',
                  fn_Signature = ''func(a ...any) (n int, err error)'',
                  fn_Params = [Some \<lparr>Filename = ''/usr/local/go/src/fmt/print.go'', PLine = 313, PColumn = 14\<rparr>],
                  fn_Results = 2\<rparr>"

definition call_of :: "ssa_func \<Rightarrow> ssa_func \<Rightarrow> vta_edge" where
  "call_of caller callee =
     \<lparr>Caller = caller, Callee = callee,
      Site = Some \<lparr>site_Pos = Some \<lparr>Filename = ''/p/a.go'', PLine = 4, PColumn = 7\<rparr>,
                   site_IsInvoke = False, site_Args = []\<rparr>\<rparr>"

section \<open>Properties of the graph store\<close>

subsection \<open>Store invariants\<close>

lemma store_inv_NewCPG: "store_inv NewCPG"
  by (simp add: store_inv_def NewCPG_def)

lemma store_inv_AddNode: "store_inv g \<Longrightarrow> store_inv (AddNode n g)"
  by (auto simp: store_inv_def AddNode_def)

lemma store_inv_AddEdge: "store_inv g \<Longrightarrow> store_inv (AddEdge e g)"
  by (auto simp: store_inv_def AddEdge_def)

lemma store_inv_Sources: "store_inv g \<Longrightarrow> store_inv (g\<lparr>Sources := src\<rparr>)"
  by (simp add: store_inv_def)

lemma store_inv_Metrics: "store_inv g \<Longrightarrow> store_inv (g\<lparr>MetricsMap := mm\<rparr>)"
  by (simp add: store_inv_def)

lemma store_inv_edit_properties:
  "store_inv g \<Longrightarrow> store_inv (g\<lparr>Nodes := map (\<lambda>n. n\<lparr>Properties := f n\<rparr>) (Nodes g)\<rparr>)"
  by (simp add: store_inv_def comp_def image_image)

lemma filter_key_fresh: "k \<notin> f ` set es \<Longrightarrow> filter (\<lambda>d. f d = k) es = []"
  by (induction es) auto

lemma filter_key_one:
  "distinct (map f es) \<Longrightarrow> k \<in> f ` set es \<Longrightarrow> length (filter (\<lambda>d. f d = k) es) = 1"
proof (induction es)
  case Nil
  then show ?case by simp
next
  case (Cons a es)
  show ?case
  proof (cases "f a = k")
    case True
    with Cons.prems have "k \<notin> f ` set es" by auto
    then have "filter (\<lambda>d. f d = k) es = []" by (rule filter_key_fresh)
    with True show ?thesis by simp
  next
    case False
    with Cons show ?thesis by auto
  qed
qed

lemma AddNode_same_id: "ID x' = ID x \<Longrightarrow> AddNode x' (AddNode x g) = AddNode x g"
  by (simp add: AddNode_def)

lemma AddEdge_same_key:
  "key_of e' = key_of e \<Longrightarrow> AddEdge e' (AddEdge e g) = AddEdge e g"
  by (simp add: AddEdge_def)

lemma key_of_mk_edge [simp]: "key_of (mk_edge s t k p) = (s, t, k)"
  by (simp add: key_of_def mk_edge_def)

lemma Nodes_AddNode: "Nodes (AddNode x g) = (if ID x \<in> nodeSeen g then Nodes g else Nodes g @ [x])"
  by (simp add: AddNode_def)

lemma Edges_AddEdge:
  "Edges (AddEdge e g) = (if key_of e \<in> edgeSeen g then Edges g else Edges g @ [e])"
  by (simp add: AddEdge_def)

lemma nodes_with_length_one:
  assumes "store_inv g"
  shows "length (nodes_with (ID x) (AddNode x g)) = 1"
proof -
  have inv: "store_inv (AddNode x g)" using assms by (rule store_inv_AddNode)
  have "ID x \<in> nodeSeen (AddNode x g)" by (simp add: AddNode_def)
  with inv have "ID x \<in> ID ` set (Nodes (AddNode x g))" by (simp add: store_inv_def)
  moreover from inv have "distinct (map ID (Nodes (AddNode x g)))" by (simp add: store_inv_def)
  ultimately show ?thesis unfolding nodes_with_def by (simp add: filter_key_one)
qed

lemma edges_with_length_one:
  assumes "store_inv g"
  shows "length (edges_with (key_of e) (AddEdge e g)) = 1"
proof -
  have inv: "store_inv (AddEdge e g)" using assms by (rule store_inv_AddEdge)
  have "key_of e \<in> edgeSeen (AddEdge e g)" by (simp add: AddEdge_def)
  with inv have "key_of e \<in> key_of ` set (Edges (AddEdge e g))" by (simp add: store_inv_def)
  moreover from inv have "distinct (map key_of (Edges (AddEdge e g)))" by (simp add: store_inv_def)
  ultimately show ?thesis unfolding edges_with_def by (simp add: filter_key_one)
qed

subsection \<open>Claim C7: re-insertion into the store\<close>

text \<open>
  C7, as stated, fails at a store that already holds an edge with the triple: the two
  calls then leave the edge stored before, which carries neither \<open>p\<close> nor \<open>p'\<close>. Here the
  store holds \<open>(a, b, call)\<close> with \<open>dynamic = true\<close>, \<open>p\<close> is empty and \<open>p'\<close> has \<open>x = true\<close>.
\<close>

theorem AddEdge_prior_triple_counterexample:
  "edges_with (''a'', ''b'', ''call'')
     (AddEdge (mk_edge ''a'' ''b'' ''call'' [(''x'', PBool True)])
        (AddEdge (mk_edge ''a'' ''b'' ''call'' [])
           (AddEdge (mk_edge ''a'' ''b'' ''call'' [(''dynamic'', PBool True)]) NewCPG)))
   = [mk_edge ''a'' ''b'' ''call'' [(''dynamic'', PBool True)]]
   \<and> mk_edge ''a'' ''b'' ''call'' [(''dynamic'', PBool True)] \<noteq> mk_edge ''a'' ''b'' ''call'' []"
  by (simp add: edges_with_def AddEdge_def NewCPG_def mk_edge_def key_of_def)

text \<open>
  C7, amended. In a consistent store, adding a node \<open>x\<close> and then a node \<open>x'\<close> with the same
  id (in particular \<open>x\<close> again) gives the store obtained by adding \<open>x\<close> alone: the first node
  with an id wins, it is stored at the end when the id was new, the node list is unchanged
  when it was not, and exactly one node with that id is stored. Adding an edge \<open>(s,t,k)\<close>
  with properties \<open>p\<close> and then the same triple with properties \<open>p'\<close> gives the store
  obtained from the first call alone, so \<open>p'\<close> is discarded; exactly one edge with that
  triple is stored: the edge carrying \<open>p\<close>, appended, when the store held no edge with the
  triple before, and otherwise the edge it held before.
\<close>

theorem store_reinsertion_first_wins:
  assumes "store_inv g" and "ID x' = ID x"
  shows "AddNode x' (AddNode x g) = AddNode x g
       \<and> Nodes (AddNode x' (AddNode x g)) = (if ID x \<in> nodeSeen g then Nodes g else Nodes g @ [x])
       \<and> length (nodes_with (ID x) (AddNode x' (AddNode x g))) = 1
       \<and> AddEdge (mk_edge s t k p') (AddEdge (mk_edge s t k p) g) = AddEdge (mk_edge s t k p) g
       \<and> Edges (AddEdge (mk_edge s t k p') (AddEdge (mk_edge s t k p) g))
           = (if (s, t, k) \<in> edgeSeen g then Edges g else Edges g @ [mk_edge s t k p])
       \<and> length (edges_with (s, t, k) (AddEdge (mk_edge s t k p') (AddEdge (mk_edge s t k p) g))) = 1"
proof -
  have n1: "AddNode x' (AddNode x g) = AddNode x g"
    using assms(2) by (rule AddNode_same_id)
  have n3: "length (nodes_with (ID x) (AddNode x g)) = 1"
    using assms(1) by (rule nodes_with_length_one)
  have e1: "AddEdge (mk_edge s t k p') (AddEdge (mk_edge s t k p) g) = AddEdge (mk_edge s t k p) g"
    by (rule AddEdge_same_key) simp
  have e3: "length (edges_with (s, t, k) (AddEdge (mk_edge s t k p) g)) = 1"
    using edges_with_length_one [OF assms(1), of "mk_edge s t k p"] by simp
  show ?thesis
    unfolding n1 e1 using n3 e3 by (simp add: Nodes_AddNode Edges_AddEdge)
qed

theorem store_reinsertion_first_wins_witness:
  "store_inv NewCPG
   \<and> ID (mk_node ''n1'' ''function'' ''second'') = ID (mk_node ''n1'' ''function'' ''first'')
   \<and> Nodes (AddNode (mk_node ''n1'' ''function'' ''second'')
              (AddNode (mk_node ''n1'' ''function'' ''first'') NewCPG))
      = [mk_node ''n1'' ''function'' ''first'']
   \<and> Edges (AddEdge (mk_edge ''a'' ''b'' ''call'' [(''dynamic'', PBool True)])
              (AddEdge (mk_edge ''a'' ''b'' ''call'' []) NewCPG))
      = [mk_edge ''a'' ''b'' ''call'' []]"
proof -
  have i: "store_inv NewCPG" by (rule store_inv_NewCPG)
  have d: "ID (mk_node ''n1'' ''function'' ''second'') = ID (mk_node ''n1'' ''function'' ''first'')"
    by (simp add: mk_node_def)
  note t = store_reinsertion_first_wins [OF i d, of "''a''" "''b''" "''call''"
      "[(''dynamic'', PBool True)]" "[]"]
  have n: "ID (mk_node ''n1'' ''function'' ''first'') \<notin> nodeSeen NewCPG"
    by (simp add: NewCPG_def)
  have e: "(''a'', ''b'', ''call'') \<notin> edgeSeen NewCPG" by (simp add: NewCPG_def)
  have g: "Nodes NewCPG = [] \<and> Edges NewCPG = []" by (simp add: NewCPG_def)
  from t have tn: "Nodes (AddNode (mk_node ''n1'' ''function'' ''second'')
              (AddNode (mk_node ''n1'' ''function'' ''first'') NewCPG))
      = (if ID (mk_node ''n1'' ''function'' ''first'') \<in> nodeSeen NewCPG then Nodes NewCPG
         else Nodes NewCPG @ [mk_node ''n1'' ''function'' ''first''])"
    by blast
  from t have te: "Edges (AddEdge (mk_edge ''a'' ''b'' ''call'' [(''dynamic'', PBool True)])
              (AddEdge (mk_edge ''a'' ''b'' ''call'' []) NewCPG))
      = (if (''a'', ''b'', ''call'') \<in> edgeSeen NewCPG then Edges NewCPG
         else Edges NewCPG @ [mk_edge ''a'' ''b'' ''call'' []])"
    by blast
  from tn n g have rn: "Nodes (AddNode (mk_node ''n1'' ''function'' ''second'')
              (AddNode (mk_node ''n1'' ''function'' ''first'') NewCPG))
      = [mk_node ''n1'' ''function'' ''first'']"
    by simp
  from te e g have re: "Edges (AddEdge (mk_edge ''a'' ''b'' ''call'' [(''dynamic'', PBool True)])
              (AddEdge (mk_edge ''a'' ''b'' ''call'' []) NewCPG))
      = [mk_edge ''a'' ''b'' ''call'' []]"
    by simp
  from i d rn re show ?thesis by blast
qed

subsection \<open>Claim C4: Set semantics of the three indices\<close>

text \<open>
  C4, as stated, fails for the FunctionIndex: a later \<open>Set\<close> of a key that is already
  mapped replaces the stored id.
\<close>

theorem FuncLookup_Set_overwrites:
  "FuncLookup_Get (FuncLookup_Set ''a.go'' 3 1 ''B'' (FuncLookup_Set ''a.go'' 3 1 ''A'' NewFuncLookup))
     ''a.go'' 3 1 = ''B''
   \<and> FuncLookup_Get (FuncLookup_Set ''a.go'' 3 1 ''A'' NewFuncLookup) ''a.go'' 3 1 = ''A''"
  by (simp add: FuncLookup_Set_def FuncLookup_Get_def map_get_def)

text \<open>
  C4, amended. The PositionIndex is first-wins: a \<open>Set\<close> of a key that is already mapped
  leaves the index unchanged, and a \<open>Set\<close> of an unmapped key stores the id. The
  FunctionIndex and the DefinitionIndex are last-wins: after a \<open>Set\<close> the key maps to the
  id just given, whatever was stored before; the DefinitionIndex ignores a nil object.
\<close>

theorem index_Set_semantics:
  "(pl_m pl (pos_key file line col) \<noteq> None \<longrightarrow> PosLookup_Set file line col nid pl = pl)
   \<and> (pl_m pl (pos_key file line col) = None \<longrightarrow>
        PosLookup_Get (PosLookup_Set file line col nid pl) file line col = nid)
   \<and> FuncLookup_Get (FuncLookup_Set file line col nid fl) file line col = nid
   \<and> DefLookup_Get (DefLookup_Set (Some ob) nid dl) (Some ob) = nid
   \<and> DefLookup_Set None nid dl = dl"
  by (simp add: PosLookup_Set_def PosLookup_Get_def FuncLookup_Set_def FuncLookup_Get_def
      DefLookup_Set_def DefLookup_Get_def map_get_def Let_def)

theorem index_Set_semantics_witness:
  "pl_m (PosLookup_Set ''a.go'' 3 1 ''A'' NewPosLookup) (pos_key ''a.go'' 3 1) \<noteq> None
   \<and> pl_m NewPosLookup (pos_key ''a.go'' 3 1) = None
   \<and> PosLookup_Get (PosLookup_Set ''a.go'' 3 1 ''B'' (PosLookup_Set ''a.go'' 3 1 ''A'' NewPosLookup))
        ''a.go'' 3 1 = ''A''"
proof -
  have m: "pl_m (PosLookup_Set ''a.go'' 3 1 ''A'' NewPosLookup) (pos_key ''a.go'' 3 1) \<noteq> None"
    by (simp add: PosLookup_Set_def NewPosLookup_def Let_def)
  have n: "pl_m NewPosLookup (pos_key ''a.go'' 3 1) = None"
    by (simp add: NewPosLookup_def)
  have a: "PosLookup_Get (PosLookup_Set ''a.go'' 3 1 ''A'' NewPosLookup) ''a.go'' 3 1 = ''A''"
    using n index_Set_semantics [of NewPosLookup "''a.go''" 3 1 "''A''" NewFuncLookup "0::nat" NewDefLookup]
    by blast
  have "PosLookup_Set ''a.go'' 3 1 ''B'' (PosLookup_Set ''a.go'' 3 1 ''A'' NewPosLookup)
          = PosLookup_Set ''a.go'' 3 1 ''A'' NewPosLookup"
    using m index_Set_semantics [of "PosLookup_Set ''a.go'' 3 1 ''A'' NewPosLookup" "''a.go''" 3 1 "''B''"
        NewFuncLookup "0::nat" NewDefLookup]
    by blast
  with m n a show ?thesis by simp
qed

subsection \<open>Decimal rendering and statement ids are injective\<close>












subsection \<open>Claim C6: defer ordering\<close>
















section \<open>Properties of control dependence extraction\<close>





lemma blockIDs_nth:
  "i < n \<Longrightarrow> map (\<lambda>i. BlockID f (int i)) [0 ..< n] ! i = BlockID f (int i)"
  by simp










subsection \<open>Claim C3: functions without exit block\<close>




section \<open>Properties of path resolution\<close>

subsection \<open>Claim C9: longest matching directory\<close>

text \<open>
  C9 at concrete inputs. With a module at \<open>/p\<close> and a nested module at \<open>/p/s\<close> (prefix
  \<open>x\<close>), the file \<open>/p/s/d/f.go\<close> is resolved against the nested module, as the claim
  says, and a file outside both gives the empty string. The file \<open>/p/s/..d/f.go\<close> lies
  in both directories, but its path relative to \<open>/p/s\<close> is \<open>..d/f.go\<close>, which starts
  with \<open>..\<close>: the nested module is skipped and the file is resolved against the parent
  module, where the claim says \<open>x/..d/f.go\<close>. With the parent module alone, the file
  \<open>/p/..gen.go\<close> inside it gives the empty string.
\<close>

theorem RelFile_dotdot_name:
  "RelFile nested_modules ''/p/s/d/f.go'' = ''x/d/f.go''
   \<and> RelFile nested_modules ''/q/f.go'' = []
   \<and> filepath_Rel ''/p/s'' ''/p/s/..d/f.go'' = Some ''..d/f.go''
   \<and> filepath_Rel ''/p'' ''/p/s/..d/f.go'' = Some ''s/..d/f.go''
   \<and> RelFile nested_modules ''/p/s/..d/f.go'' = ''s/..d/f.go''
   \<and> RelFile [\<lparr>ModPath = ''example.com/p'', Dir = ''/p'', Prefix = []\<rparr>] ''/p/..gen.go'' = []"
  by code_simp

section \<open>Properties of the call graph builder\<close>

lemma ID_stub_node [simp]: "ID (stub_node ms callee) = ''ext::'' @ fn_String callee"
  by (simp add: stub_node_def)

lemma nodeSeen_AddNode_mono: "nodeSeen g \<subseteq> nodeSeen (AddNode n g)"
  by (auto simp: AddNode_def)

lemma nodeSeen_AddNode_in: "ID n \<in> nodeSeen (AddNode n g)"
  by (simp add: AddNode_def)

lemma Nodes_AddEdge [simp]: "Nodes (AddEdge e g) = Nodes g"
  by (simp add: AddEdge_def)

lemma nodeSeen_AddEdge [simp]: "nodeSeen (AddEdge e g) = nodeSeen g"
  by (simp add: AddEdge_def)

lemma param_in_Nodes:
  "Nodes (fold (param_in_step ms pl args params off) is g) = Nodes g
   \<and> nodeSeen (fold (param_in_step ms pl args params off) is g) = nodeSeen g"
  by (induction "is" arbitrary: g) (simp_all add: param_in_step_def Let_def)

lemma param_in_edgeSeen:
  "edgeSeen g \<subseteq> edgeSeen (fold (param_in_step ms pl args params off) is g)"
proof (induction "is" arbitrary: g)
  case Nil
  show ?case by simp
next
  case (Cons i "is")
  have "edgeSeen g \<subseteq> edgeSeen (param_in_step ms pl args params off i g)"
    by (auto simp: param_in_step_def Let_def AddEdge_def)
  with Cons show ?case by (metis fold_simps(2) subset_trans)
qed

lemma emit_call_edges_Nodes:
  "Nodes (emit_call_edges ms pl e a b g) = Nodes g
   \<and> nodeSeen (emit_call_edges ms pl e a b g) = nodeSeen g"
  by (simp add: emit_call_edges_def Let_def param_in_Nodes split: option.splits)

lemma edgeSeen_AddEdge_mono: "edgeSeen g \<subseteq> edgeSeen (AddEdge e g)"
  by (auto simp: AddEdge_def)

lemma edgeSeen_AddEdge_in: "key_of e \<in> edgeSeen (AddEdge e g)"
  by (simp add: AddEdge_def)

lemma emit_call_edges_superset:
  "edgeSeen (AddEdge (call_edge e a b) g) \<subseteq> edgeSeen (emit_call_edges ms pl e a b g)"
  unfolding emit_call_edges_def Let_def call_edge_def
  by (auto split: option.splits
      intro: subsetD [OF edgeSeen_AddEdge_mono] subsetD [OF param_in_edgeSeen])

lemma emit_call_edges_call:
  "(a, b, ''call'') \<in> edgeSeen (emit_call_edges ms pl e a b g)"
proof -
  have "(a, b, ''call'') \<in> edgeSeen (AddEdge (call_edge e a b) g)"
    using edgeSeen_AddEdge_in [of "call_edge e a b" g] by (simp add: key_of_def call_edge_def)
  with emit_call_edges_superset show ?thesis by blast
qed

lemma emit_call_edges_mono:
  "edgeSeen g \<subseteq> edgeSeen (emit_call_edges ms pl e a b g)"
  using edgeSeen_AddEdge_mono [of g "call_edge e a b"] emit_call_edges_superset [of e a b g ms pl]
  by (rule subset_trans)

lemma step_known_unresolved:
  assumes "known_unresolved ms fl (Callee e)"
  shows "BuildCallGraph_edge ms pl fl e st = st"
proof -
  from assms have k: "pkg_known ms (Callee e)" and u: "ssaFuncNodeID ms fl (Callee e) = []"
    by (simp_all add: known_unresolved_def)
  from k have "fn_Pkg (Callee e) \<noteq> None" by (auto simp: pkg_known_def split: option.splits)
  with k u have "resolve_callee ms (Callee e) [] st = None" by (simp add: resolve_callee_def)
  with u show ?thesis by (simp add: BuildCallGraph_edge_def Let_def)
qed

lemma resolve_callee_cases:
  assumes "resolve_callee ms callee calleeID st = Some (cid, st')"
  shows "(st' = st \<and> (cid = calleeID \<and> calleeID \<noteq> [] \<or> cid = ''ext::'' @ fn_String callee))
       \<or> (calleeID = [] \<and> fn_Pkg callee \<noteq> None \<and> \<not> pkg_known ms callee
           \<and> cid = ''ext::'' @ fn_String callee
           \<and> st' = \<lparr>cg_cpg = AddNode (stub_node ms callee) (cg_cpg st),
                     cg_stubs = insert (''ext::'' @ fn_String callee) (cg_stubs st)\<rparr>)"
  using assms by (auto simp: resolve_callee_def Let_def split: if_splits)

lemma step_Nodes:
  "set (Nodes (cg_cpg (BuildCallGraph_edge ms pl fl e st))) \<subseteq> set (Nodes (cg_cpg st))
   \<or> (outside_unresolved ms fl (Callee e)
       \<and> set (Nodes (cg_cpg (BuildCallGraph_edge ms pl fl e st)))
           \<subseteq> insert (stub_node ms (Callee e)) (set (Nodes (cg_cpg st))))"
proof (cases "resolve_callee ms (Callee e) (ssaFuncNodeID ms fl (Callee e)) st")
  case None
  then show ?thesis by (simp add: BuildCallGraph_edge_def Let_def)
next
  case (Some r)
  obtain cid st' where r: "r = (cid, st')" by (cases r)
  from Some r resolve_callee_cases [of ms "Callee e" "ssaFuncNodeID ms fl (Callee e)" st cid st']
  consider (same) "st' = st"
    | (stub) "outside_unresolved ms fl (Callee e)"
        "st' = \<lparr>cg_cpg = AddNode (stub_node ms (Callee e)) (cg_cpg st),
                cg_stubs = insert (''ext::'' @ fn_String (Callee e)) (cg_stubs st)\<rparr>"
    by (auto simp: outside_unresolved_def)
  then show ?thesis
  proof cases
    case same
    with Some r show ?thesis
      by (simp add: BuildCallGraph_edge_def Let_def emit_call_edges_Nodes)
  next
    case stub
    have "set (Nodes (AddNode (stub_node ms (Callee e)) (cg_cpg st)))
            \<subseteq> insert (stub_node ms (Callee e)) (set (Nodes (cg_cpg st)))"
      by (auto simp: AddNode_def)
    with Some r stub show ?thesis
      by (simp add: BuildCallGraph_edge_def Let_def emit_call_edges_Nodes)
  qed
qed

lemma fold_step_Nodes:
  "n \<in> set (Nodes (cg_cpg (fold (BuildCallGraph_edge ms pl fl) edges st))) \<Longrightarrow>
   n \<in> set (Nodes (cg_cpg st))
   \<or> (\<exists>e\<in>set edges. n = stub_node ms (Callee e) \<and> outside_unresolved ms fl (Callee e))"
proof (induction edges arbitrary: st)
  case Nil
  then show ?case by simp
next
  case (Cons e edges)
  from Cons.prems have "n \<in> set (Nodes (cg_cpg (fold (BuildCallGraph_edge ms pl fl) edges
                              (BuildCallGraph_edge ms pl fl e st))))" by simp
  then have "n \<in> set (Nodes (cg_cpg (BuildCallGraph_edge ms pl fl e st)))
     \<or> (\<exists>e\<in>set edges. n = stub_node ms (Callee e) \<and> outside_unresolved ms fl (Callee e))"
    by (rule Cons.IH)
  then show ?case
  proof
    assume a: "n \<in> set (Nodes (cg_cpg (BuildCallGraph_edge ms pl fl e st)))"
    from step_Nodes [of ms pl fl e st] a
    have "n \<in> set (Nodes (cg_cpg st)) \<or> (outside_unresolved ms fl (Callee e) \<and> n = stub_node ms (Callee e))"
      by auto
    then show ?thesis by auto
  next
    assume "\<exists>e\<in>set edges. n = stub_node ms (Callee e) \<and> outside_unresolved ms fl (Callee e)"
    then show ?thesis by auto
  qed
qed

lemma step_outside_stub:
  assumes "pkg_known ms (Caller e)" and "ssaFuncNodeID ms fl (Caller e) \<noteq> []"
    and "outside_unresolved ms fl (Callee e)"
  shows "''ext::'' @ fn_String (Callee e) \<in> nodeSeen (cg_cpg (BuildCallGraph_edge ms pl fl e st))
         \<or> ''ext::'' @ fn_String (Callee e) \<in> cg_stubs st"
    and "(ssaFuncNodeID ms fl (Caller e), ''ext::'' @ fn_String (Callee e), ''call'')
           \<in> edgeSeen (cg_cpg (BuildCallGraph_edge ms pl fl e st))"
proof -
  from assms(3) have u: "ssaFuncNodeID ms fl (Callee e) = []" and p: "fn_Pkg (Callee e) \<noteq> None"
    and k: "\<not> pkg_known ms (Callee e)" by (simp_all add: outside_unresolved_def)
  let ?sid = "''ext::'' @ fn_String (Callee e)"
  show "?sid \<in> nodeSeen (cg_cpg (BuildCallGraph_edge ms pl fl e st)) \<or> ?sid \<in> cg_stubs st"
    using assms(1,2) u p k
    by (auto simp: BuildCallGraph_edge_def Let_def resolve_callee_def emit_call_edges_Nodes
        AddNode_def stub_node_def)
  show "(ssaFuncNodeID ms fl (Caller e), ?sid, ''call'')
           \<in> edgeSeen (cg_cpg (BuildCallGraph_edge ms pl fl e st))"
    using assms(1,2) u p k
    by (auto simp: BuildCallGraph_edge_def Let_def resolve_callee_def emit_call_edges_call)
qed

lemma param_in_inv:
  "store_inv g \<Longrightarrow> store_inv (fold (param_in_step ms pl args params off) is g)"
proof (induction "is" arbitrary: g)
  case Nil
  then show ?case by simp
next
  case (Cons i "is")
  from Cons.prems have "store_inv (param_in_step ms pl args params off i g)"
    by (simp add: param_in_step_def Let_def store_inv_AddEdge)
  then show ?case by (simp add: Cons.IH)
qed

lemma emit_call_edges_inv:
  "store_inv g \<Longrightarrow> store_inv (emit_call_edges ms pl e a b g)"
  unfolding emit_call_edges_def Let_def
  by (auto split: option.splits intro!: store_inv_AddEdge param_in_inv)

lemma step_inv:
  assumes "cg_inv st"
  shows "cg_inv (BuildCallGraph_edge ms pl fl e st)"
proof (cases "resolve_callee ms (Callee e) (ssaFuncNodeID ms fl (Callee e)) st")
  case None
  with assms show ?thesis by (simp add: BuildCallGraph_edge_def Let_def)
next
  case (Some r)
  obtain cid st' where r: "r = (cid, st')" by (cases r)
  from Some r resolve_callee_cases [of ms "Callee e" "ssaFuncNodeID ms fl (Callee e)" st cid st']
  consider (same) "st' = st"
    | (stub) "st' = \<lparr>cg_cpg = AddNode (stub_node ms (Callee e)) (cg_cpg st),
                cg_stubs = insert (''ext::'' @ fn_String (Callee e)) (cg_stubs st)\<rparr>"
    by auto
  then have "cg_inv st'"
  proof cases
    case same
    with assms show ?thesis by simp
  next
    case stub
    have "nodeSeen (cg_cpg st) \<subseteq> nodeSeen (AddNode (stub_node ms (Callee e)) (cg_cpg st))"
      by (rule nodeSeen_AddNode_mono)
    moreover have "''ext::'' @ fn_String (Callee e)
                     \<in> nodeSeen (AddNode (stub_node ms (Callee e)) (cg_cpg st))"
      using nodeSeen_AddNode_in [of "stub_node ms (Callee e)" "cg_cpg st"] by simp
    ultimately show ?thesis
      using assms stub by (auto simp: cg_inv_def store_inv_AddNode)
  qed
  then have "cg_inv (st'\<lparr>cg_cpg := emit_call_edges ms pl e (ssaFuncNodeID ms fl (Caller e)) cid (cg_cpg st')\<rparr>)"
    by (simp add: cg_inv_def emit_call_edges_inv emit_call_edges_Nodes)
  with Some r assms show ?thesis by (simp add: BuildCallGraph_edge_def Let_def)
qed

lemma step_mono:
  "nodeSeen (cg_cpg st) \<subseteq> nodeSeen (cg_cpg (BuildCallGraph_edge ms pl fl e st))
   \<and> edgeSeen (cg_cpg st) \<subseteq> edgeSeen (cg_cpg (BuildCallGraph_edge ms pl fl e st))"
proof (cases "resolve_callee ms (Callee e) (ssaFuncNodeID ms fl (Callee e)) st")
  case None
  then show ?thesis by (simp add: BuildCallGraph_edge_def Let_def)
next
  case (Some r)
  obtain cid st' where r: "r = (cid, st')" by (cases r)
  have a: "nodeSeen (cg_cpg st) \<subseteq> nodeSeen (cg_cpg st') \<and> edgeSeen (cg_cpg st) \<subseteq> edgeSeen (cg_cpg st')"
    using Some r by (auto simp: resolve_callee_def Let_def AddNode_def split: if_splits)
  have b: "edgeSeen (cg_cpg st') \<subseteq> edgeSeen (emit_call_edges ms pl e (ssaFuncNodeID ms fl (Caller e)) cid (cg_cpg st'))"
    by (rule emit_call_edges_mono)
  from a b Some r show ?thesis
    by (auto simp: BuildCallGraph_edge_def Let_def emit_call_edges_Nodes)
qed

lemma fold_mono:
  "nodeSeen (cg_cpg st) \<subseteq> nodeSeen (cg_cpg (fold (BuildCallGraph_edge ms pl fl) edges st))
   \<and> edgeSeen (cg_cpg st) \<subseteq> edgeSeen (cg_cpg (fold (BuildCallGraph_edge ms pl fl) edges st))"
proof (induction edges arbitrary: st)
  case Nil
  show ?case by simp
next
  case (Cons e edges)
  from step_mono [of st ms pl fl e] Cons [of "BuildCallGraph_edge ms pl fl e st"]
  show ?case by auto
qed

lemma fold_inv:
  "cg_inv st \<Longrightarrow> cg_inv (fold (BuildCallGraph_edge ms pl fl) edges st)"
  by (induction edges arbitrary: st) (simp_all add: step_inv)

lemma fold_outside_stub:
  assumes "cg_inv st" and "e \<in> set edges"
    and "pkg_known ms (Caller e)" and "ssaFuncNodeID ms fl (Caller e) \<noteq> []"
    and "outside_unresolved ms fl (Callee e)"
  shows "''ext::'' @ fn_String (Callee e)
           \<in> nodeSeen (cg_cpg (fold (BuildCallGraph_edge ms pl fl) edges st))
       \<and> (ssaFuncNodeID ms fl (Caller e), ''ext::'' @ fn_String (Callee e), ''call'')
           \<in> edgeSeen (cg_cpg (fold (BuildCallGraph_edge ms pl fl) edges st))"
  using assms(1,2)
proof (induction edges arbitrary: st)
  case Nil
  then show ?case by simp
next
  case (Cons x edges)
  show ?case
  proof (cases "x = e")
    case True
    let ?st1 = "BuildCallGraph_edge ms pl fl e st"
    from step_outside_stub [OF assms(3,4,5), of pl st] Cons.prems(1) step_mono [of st ms pl fl e]
    have "''ext::'' @ fn_String (Callee e) \<in> nodeSeen (cg_cpg ?st1)"
      and "(ssaFuncNodeID ms fl (Caller e), ''ext::'' @ fn_String (Callee e), ''call'')
             \<in> edgeSeen (cg_cpg ?st1)"
      by (auto simp: cg_inv_def)
    with fold_mono [of ?st1 ms pl fl edges] True show ?thesis by auto
  next
    case False
    with Cons.prems(2) have "e \<in> set edges" by simp
    moreover have "cg_inv (BuildCallGraph_edge ms pl fl x st)"
      using Cons.prems(1) by (rule step_inv)
    ultimately show ?thesis using Cons.IH by simp
  qed
qed

subsection \<open>Claim C5: external stubs\<close>

text \<open>
  C5. The call-graph builder creates an \<open>ext::\<close> stub node only for a callee whose package
  lies outside every in-scope module. An edge whose callee is in an in-scope module but is
  not found through the FunctionIndex leaves the store and the stub set unchanged: no call
  edge, no stub. Every node the builder adds is the stub of a callee of one of its edges
  that has a package outside every module and is not found through the FunctionIndex, so
  no stub names an in-scope function. And such a callee, called from a resolved caller of
  an in-scope module, does get its stub node and its call edge.
\<close>

theorem stubs_only_for_outside_callees:
  assumes "store_inv g"
  shows "(known_unresolved ms funcLookup (Callee e) \<longrightarrow>
            BuildCallGraph_edge ms posLookup funcLookup e st = st)
       \<and> (\<forall>n\<in>set (Nodes (BuildCallGraph ms posLookup funcLookup edges g)).
             n \<in> set (Nodes g)
             \<or> (\<exists>e'\<in>set edges. n = stub_node ms (Callee e')
                    \<and> outside_unresolved ms funcLookup (Callee e')))
       \<and> (\<forall>e'\<in>set edges.
             pkg_known ms (Caller e') \<and> ssaFuncNodeID ms funcLookup (Caller e') \<noteq> []
             \<and> outside_unresolved ms funcLookup (Callee e') \<longrightarrow>
               ''ext::'' @ fn_String (Callee e')
                 \<in> ID ` set (Nodes (BuildCallGraph ms posLookup funcLookup edges g))
               \<and> (ssaFuncNodeID ms funcLookup (Caller e'), ''ext::'' @ fn_String (Callee e'), ''call'')
                   \<in> key_of ` set (Edges (BuildCallGraph ms posLookup funcLookup edges g)))"
proof -
  let ?st0 = "\<lparr>cg_cpg = g, cg_stubs = {}\<rparr>"
  let ?r = "fold (BuildCallGraph_edge ms posLookup funcLookup) edges ?st0"
  have i0: "cg_inv ?st0" using assms by (simp add: cg_inv_def)
  then have "cg_inv ?r" by (rule fold_inv)
  then have inv: "store_inv (cg_cpg ?r)" by (simp add: cg_inv_def)
  have a: "known_unresolved ms funcLookup (Callee e) \<longrightarrow>
             BuildCallGraph_edge ms posLookup funcLookup e st = st"
    by (simp add: step_known_unresolved)
  have b: "\<forall>n\<in>set (Nodes (cg_cpg ?r)). n \<in> set (Nodes g)
             \<or> (\<exists>e'\<in>set edges. n = stub_node ms (Callee e')
                    \<and> outside_unresolved ms funcLookup (Callee e'))"
    using fold_step_Nodes [of _ ms posLookup funcLookup edges ?st0] by auto
  have c: "\<forall>e'\<in>set edges.
             pkg_known ms (Caller e') \<and> ssaFuncNodeID ms funcLookup (Caller e') \<noteq> []
             \<and> outside_unresolved ms funcLookup (Callee e') \<longrightarrow>
               ''ext::'' @ fn_String (Callee e') \<in> ID ` set (Nodes (cg_cpg ?r))
               \<and> (ssaFuncNodeID ms funcLookup (Caller e'), ''ext::'' @ fn_String (Callee e'), ''call'')
                   \<in> key_of ` set (Edges (cg_cpg ?r))"
  proof (intro ballI impI)
    fix e' assume m: "e' \<in> set edges"
      and h: "pkg_known ms (Caller e') \<and> ssaFuncNodeID ms funcLookup (Caller e') \<noteq> []
             \<and> outside_unresolved ms funcLookup (Callee e')"
    from fold_outside_stub [OF i0 m, of ms funcLookup posLookup] h
    have "''ext::'' @ fn_String (Callee e') \<in> nodeSeen (cg_cpg ?r)
          \<and> (ssaFuncNodeID ms funcLookup (Caller e'), ''ext::'' @ fn_String (Callee e'), ''call'')
               \<in> edgeSeen (cg_cpg ?r)"
      by blast
    with inv show "''ext::'' @ fn_String (Callee e') \<in> ID ` set (Nodes (cg_cpg ?r))
               \<and> (ssaFuncNodeID ms funcLookup (Caller e'), ''ext::'' @ fn_String (Callee e'), ''call'')
                   \<in> key_of ` set (Edges (cg_cpg ?r))"
      by (simp add: store_inv_def)
  qed
  from a b c show ?thesis unfolding BuildCallGraph_def by blast
qed

lemma callgraph_example:
  "known_unresolved one_module example_funcs gen_G
   \<and> pkg_known one_module fn_f \<and> ssaFuncNodeID one_module example_funcs fn_f = ''main::f@a.go:3:1''
   \<and> outside_unresolved one_module example_funcs fmt_Println
   \<and> map ID (Nodes (BuildCallGraph one_module NewPosLookup example_funcs
                      [call_of fn_f gen_G, call_of fn_f fmt_Println] NewCPG))
       = [''ext::fmt.Println'']
   \<and> map key_of (Edges (BuildCallGraph one_module NewPosLookup example_funcs
                      [call_of fn_f gen_G, call_of fn_f fmt_Println] NewCPG))
       = [(''main::f@a.go:3:1'', ''ext::fmt.Println'', ''call'')]"
  by code_simp

theorem stubs_only_for_outside_callees_witness:
  "store_inv NewCPG
   \<and> known_unresolved one_module example_funcs (Callee (call_of fn_f gen_G))
   \<and> pkg_known one_module (Caller (call_of fn_f fmt_Println))
   \<and> ssaFuncNodeID one_module example_funcs (Caller (call_of fn_f fmt_Println)) \<noteq> []
   \<and> outside_unresolved one_module example_funcs (Callee (call_of fn_f fmt_Println))
   \<and> Nodes (cg_cpg (BuildCallGraph_edge one_module NewPosLookup example_funcs (call_of fn_f gen_G)
               \<lparr>cg_cpg = NewCPG, cg_stubs = {}\<rparr>)) = []
   \<and> Edges (cg_cpg (BuildCallGraph_edge one_module NewPosLookup example_funcs (call_of fn_f gen_G)
               \<lparr>cg_cpg = NewCPG, cg_stubs = {}\<rparr>)) = []
   \<and> ''ext::'' @ fn_String fmt_Println
        \<in> ID ` set (Nodes (BuildCallGraph one_module NewPosLookup example_funcs
                            [call_of fn_f gen_G, call_of fn_f fmt_Println] NewCPG))
   \<and> map ID (Nodes (BuildCallGraph one_module NewPosLookup example_funcs
                      [call_of fn_f gen_G, call_of fn_f fmt_Println] NewCPG))
       = [''ext::fmt.Println'']"
proof -
  let ?es = "[call_of fn_f gen_G, call_of fn_f fmt_Println]"
  have i: "store_inv NewCPG" by (rule store_inv_NewCPG)
  have k: "known_unresolved one_module example_funcs (Callee (call_of fn_f gen_G))"
    using callgraph_example by (simp add: call_of_def)
  have p: "pkg_known one_module (Caller (call_of fn_f fmt_Println))"
    using callgraph_example by (simp add: call_of_def)
  have r: "ssaFuncNodeID one_module example_funcs (Caller (call_of fn_f fmt_Println)) \<noteq> []"
    using callgraph_example by (simp add: call_of_def)
  have u: "outside_unresolved one_module example_funcs (Callee (call_of fn_f fmt_Println))"
    using callgraph_example by (simp add: call_of_def)
  note t = stubs_only_for_outside_callees [OF i, of one_module example_funcs
      "call_of fn_f gen_G" NewPosLookup "\<lparr>cg_cpg = NewCPG, cg_stubs = {}\<rparr>" ?es]
  from t k have s: "BuildCallGraph_edge one_module NewPosLookup example_funcs (call_of fn_f gen_G)
               \<lparr>cg_cpg = NewCPG, cg_stubs = {}\<rparr> = \<lparr>cg_cpg = NewCPG, cg_stubs = {}\<rparr>"
    by blast
  have m: "call_of fn_f fmt_Println \<in> set ?es" by simp
  from t m p r u have x: "''ext::'' @ fn_String (Callee (call_of fn_f fmt_Println))
        \<in> ID ` set (Nodes (BuildCallGraph one_module NewPosLookup example_funcs ?es NewCPG))"
    by blast
  then have x': "''ext::'' @ fn_String fmt_Println
        \<in> ID ` set (Nodes (BuildCallGraph one_module NewPosLookup example_funcs ?es NewCPG))"
    by (simp add: call_of_def)
  have n: "Nodes NewCPG = [] \<and> Edges NewCPG = []" by (simp add: NewCPG_def)
  have l: "map ID (Nodes (BuildCallGraph one_module NewPosLookup example_funcs ?es NewCPG))
       = [''ext::fmt.Println'']"
    using callgraph_example by blast
  from i k p r u n x' l show ?thesis unfolding s by simp
qed

end
